theory Spec2Isabelle
  imports Main "HOL-Library.Sublist" "HOL-Library.Multiset"
begin

section \<open>Data model of dataobject.py\<close>

text \<open>
  Python objects live in an arena: a \<open>DataObject\<close> instance is the index of its record in
  \<open>objs\<close>, a \<open>DataObjectTracker\<close> instance the index of its record in \<open>trackers\<close>. Comparing two
  instances with \<open>==\<close> or \<open>in\<close> compares these indices (neither class defines \<open>__eq__\<close>).
  A class is represented by its \<open>__name__\<close>.
\<close>

type_synonym ref = nat
type_synonym tref = nat
type_synonym pytype = string

text \<open>The tuple \<open>(index, name, objecttype, dataobject)\<close> stored by a tracker.\<close>

type_synonym entry = "nat \<times> string \<times> pytype \<times> ref"

text \<open>
  The attributes of a \<open>DataObject\<close> instance. \<open>dataobjecttracker\<close> is the attribute that
  subclasses such as the raw datacube add; \<open>None\<close> means that the attribute is absent and
  reading it raises \<open>AttributeError\<close>.
\<close>

record dataobject =
  save_behavior :: bool
  name :: string
  parents_and_save_behavior :: "(ref \<times> bool) list"
  modification_log :: "int list"
  otype :: pytype
  dataobjecttracker :: "tref option"

record tracker =
  rawdatacube :: ref
  dataobject_list :: "entry list"

text \<open>What the decorator \<open>show_object_list\<close> hands to \<open>print\<close>: the header, or one row.\<close>

datatype line = Header | Row nat string pytype

text \<open>
  The program state: both arenas, \<open>logger.log_index\<close> of the module-level logger, and
  the lines printed so far.
\<close>

record state =
  objs :: "dataobject list"
  trackers :: "tracker list"
  log_index :: int
  stdout :: "line list"

datatype error = TypeError | AssertionError | IndexError

text \<open>
  A method that mutates either returns or raises; the mutations made before a raise stay
  in the state, so both outcomes carry it.
\<close>

datatype result = Returned state | Raised error state

fun state_of :: "result \<Rightarrow> state" where
  "state_of (Returned h) = h"
| "state_of (Raised e h) = h"

text \<open>The Python values that the queries of a tracker return.\<close>

datatype pyval = PNone | Instance ref | Tuple4 nat string pytype ref | PList "pyval list"

fun tuple_val :: "entry \<Rightarrow> pyval" where
  "tuple_val (index, nm, objecttype, d) = Tuple4 index nm objecttype d"

text \<open>The keyword arguments \<open>**kwargs\<close> that the two mutators look at.\<close>

record kwargs =
  kw_save_behavior :: "bool option"
  kw_name :: "string option"

definition no_kwargs :: kwargs where
  "no_kwargs = \<lparr>kw_save_behavior = None, kw_name = None\<rparr>"

definition obj :: "state \<Rightarrow> ref \<Rightarrow> dataobject" where
  "obj h r = objs h ! r"

definition trk :: "state \<Rightarrow> tref \<Rightarrow> tracker" where
  "trk h t = trackers h ! t"

text \<open>
  Assignment to an attribute of an instance. A reference of the program always points
  into its arena; the statements below that depend on it say so.
\<close>

definition upd_obj :: "state \<Rightarrow> ref \<Rightarrow> (dataobject \<Rightarrow> dataobject) \<Rightarrow> state" where
  "upd_obj h r f = h\<lparr>objs := (objs h)[r := f (obj h r)]\<rparr>"

definition upd_trk :: "state \<Rightarrow> tref \<Rightarrow> (tracker \<Rightarrow> tracker) \<Rightarrow> state" where
  "upd_trk h t f = h\<lparr>trackers := (trackers h)[t := f (trk h t)]\<rparr>"

section \<open>DataObject\<close>

definition get_parent_list :: "state \<Rightarrow> ref \<Rightarrow> ref list" where
  "get_parent_list h self = map fst (parents_and_save_behavior (obj h self))"

definition has_parent :: "state \<Rightarrow> ref \<Rightarrow> ref \<Rightarrow> bool" where
  "has_parent h self datacube = (datacube \<in> set (get_parent_list h self))"

text \<open>\<open>list.index(x)\<close>: the first position of \<open>x\<close>.\<close>

fun list_index :: "'a list \<Rightarrow> 'a \<Rightarrow> nat" where
  "list_index [] x = 0"
| "list_index (y # ys) x = (if y = x then 0 else Suc (list_index ys x))"

text \<open>
  \<open>change_save_behavior\<close> asserts that the parent is known and then calls
  \<open>self.get_parent_list().index()\<close> with no argument, which raises \<open>TypeError\<close>; the
  assignment after it is never reached.
\<close>

definition change_save_behavior :: "state \<Rightarrow> ref \<Rightarrow> ref \<Rightarrow> bool \<Rightarrow> result" where
  "change_save_behavior h self parent sb =
     (if parent \<notin> set (get_parent_list h self) then Raised AssertionError h
      else Raised TypeError h)"

definition get_save_behavior :: "state \<Rightarrow> ref \<Rightarrow> ref \<Rightarrow> error + bool" where
  "get_save_behavior h self parent =
     (if parent \<notin> set (get_parent_list h self) then Inl AssertionError
      else Inr (snd (parents_and_save_behavior (obj h self)
                       ! list_index (get_parent_list h self) parent)))"

text \<open>
  \<open>get_dataobjecttrackers(dataobject)\<close>: the tracker of \<open>dataobject\<close> and the trackers of its
  direct parents, skipping every object without the attribute.
\<close>

definition get_dataobjecttrackers :: "state \<Rightarrow> ref \<Rightarrow> tref list" where
  "get_dataobjecttrackers h d =
     (case dataobjecttracker (obj h d) of None \<Rightarrow> [] | Some t \<Rightarrow> [t])
     @ List.map_filter (\<lambda>parent. dataobjecttracker (obj h parent)) (get_parent_list h d)"

definition get_current_log_index :: "state \<Rightarrow> int" where
  "get_current_log_index h = log_index h"

definition log_modification :: "state \<Rightarrow> ref \<Rightarrow> state" where
  "log_modification h self =
     (let index = get_current_log_index h - 1
      in upd_obj h self (\<lambda>d. d\<lparr>modification_log := modification_log d @ [index]\<rparr>))"

section \<open>DataObjectTracker\<close>

definition contains_dataobject :: "state \<Rightarrow> tref \<Rightarrow> ref \<Rightarrow> bool" where
  "contains_dataobject h self d =
     (d \<in> set (map (\<lambda>(index, nm, objecttype, dataobject). dataobject)
                  (dataobject_list (trk h self))))"

text \<open>
  \<open>dataobject in self.dataobject_list\<close> in \<open>new_dataobject\<close> looks for the instance among the
  tuples of the list, and an instance is not equal to a tuple.
\<close>

definition in_dataobject_list :: "state \<Rightarrow> tref \<Rightarrow> ref \<Rightarrow> bool" where
  "in_dataobject_list h self d =
     (Instance d \<in> set (map tuple_val (dataobject_list (trk h self))))"

definition append_entry :: "state \<Rightarrow> tref \<Rightarrow> ref \<Rightarrow> kwargs \<Rightarrow> state" where
  "append_entry h self d kw =
     (let index = length (dataobject_list (trk h self));
          nm = (case kw_name kw of Some n \<Rightarrow> n | None \<Rightarrow> name (obj h d));
          objecttype = otype (obj h d);
          tup = (index, nm, objecttype, d)
      in upd_trk h self (\<lambda>t. t\<lparr>dataobject_list := dataobject_list t @ [tup]\<rparr>))"

definition append_parent :: "state \<Rightarrow> ref \<Rightarrow> ref \<Rightarrow> bool \<Rightarrow> state" where
  "append_parent h self parent sb =
     upd_obj h self (\<lambda>d. d\<lparr>parents_and_save_behavior :=
                              parents_and_save_behavior d @ [(parent, sb)]\<rparr>)"

section \<open>The registration protocol\<close>

text \<open>
  \<open>new_parent(self, parent, **kwargs)\<close> and \<open>new_dataobject(self, dataobject, **kwargs)\<close> call
  each other. \<open>new_parent\<close> accepts one positional argument after \<open>self\<close>; \<open>extra\<close> lists the
  further positional arguments of a call, and a call that has any raises \<open>TypeError\<close>
  before the body runs. \<open>new_parent_loop\<close> is the \<open>for tracker in dataobjecttrackers\<close> loop.
  The argument of \<open>new_dataobject\<close> is a \<open>DataObject\<close> instance, so its \<open>isinstance\<close>
  assertion holds.
\<close>

function new_parent :: "state \<Rightarrow> ref \<Rightarrow> ref option \<Rightarrow> bool list \<Rightarrow> kwargs \<Rightarrow> result"
  and new_parent_loop :: "state \<Rightarrow> ref \<Rightarrow> bool \<Rightarrow> tref list \<Rightarrow> result"
  and new_dataobject :: "state \<Rightarrow> tref \<Rightarrow> ref \<Rightarrow> kwargs \<Rightarrow> result"
where
  "new_parent h self parent extra kw =
     (if extra \<noteq> [] then Raised TypeError h
      else
        let sb = (case kw_save_behavior kw of Some b \<Rightarrow> b
                  | None \<Rightarrow> save_behavior (obj h self))
        in case parent of
             None \<Rightarrow> Returned h
           | Some p \<Rightarrow>
               (case (if p \<notin> set (get_parent_list h self)
                      then Returned (append_parent h self p sb)
                      else change_save_behavior h self p sb) of
                  Raised e h' \<Rightarrow> Raised e h'
                | Returned h' \<Rightarrow>
                    new_parent_loop h' self sb (get_dataobjecttrackers h' p)))"
| "new_parent_loop h self sb [] = Returned h"
| "new_parent_loop h self sb (t # rest) =
     (if \<not> contains_dataobject h t self
      then (case new_dataobject h t self \<lparr>kw_save_behavior = Some sb, kw_name = None\<rparr> of
              Raised e h' \<Rightarrow> Raised e h'
            | Returned h' \<Rightarrow> new_parent_loop h' self sb rest)
      else new_parent_loop h self sb rest)"
| "new_dataobject h self d kw =
     (let h1 = (if \<not> in_dataobject_list h self d then append_entry h self d kw else h)
      in if \<not> has_parent h1 d (rawdatacube (trk h1 self))
         then (case kw_save_behavior kw of
                 Some b \<Rightarrow> new_parent h1 d (Some (rawdatacube (trk h1 self))) [b] no_kwargs
               | None \<Rightarrow> new_parent h1 d (Some (rawdatacube (trk h1 self))) [] no_kwargs)
         else Returned h1)"
  by pat_completeness auto

text \<open>
  The calls go down five levels: \<open>new_dataobject\<close> without \<open>save_behavior\<close>, \<open>new_parent\<close>
  with one positional argument, its loop (by the length of the list), \<open>new_dataobject\<close>
  with \<open>save_behavior\<close>, and \<open>new_parent\<close> with two positional arguments, which raises.
\<close>

termination
proof (relation "inv_image (less_than <*lex*> less_than)
   (\<lambda>x. case x of
       Inl (h, self, parent, extra, kw) \<Rightarrow> (if extra = [] then 3 else 0, 0::nat)
     | Inr (Inl (h, self, sb, ts)) \<Rightarrow> (2::nat, length ts)
     | Inr (Inr (h, self, d, kw)) \<Rightarrow> (if kw_save_behavior kw = None then 4 else 1, 0))")
qed (auto simp: no_kwargs_def)

declare new_parent.simps [simp del]
declare new_parent_loop.simps [simp del]
declare new_dataobject.simps [simp del]

text \<open>
  \<open>DataObject.__init__(self, parent, save_behavior=True, name='')\<close>, run on the instance
  \<open>self\<close> that Python has just allocated. An omitted optional argument is \<open>None\<close>.
\<close>

definition DataObject_init ::
  "state \<Rightarrow> ref \<Rightarrow> ref option \<Rightarrow> bool option \<Rightarrow> string option \<Rightarrow> result" where
  "DataObject_init h self parent save_behavior_arg name_arg =
     (let sb = (case save_behavior_arg of Some b \<Rightarrow> b | None \<Rightarrow> True);
          nm = (case name_arg of Some n \<Rightarrow> n | None \<Rightarrow> '''');
          h1 = upd_obj h self (\<lambda>d. d\<lparr>save_behavior := sb, name := nm\<rparr>);
          h2 = upd_obj h1 self (\<lambda>d. d\<lparr>parents_and_save_behavior := []\<rparr>)
      in case new_parent h2 self parent []
                \<lparr>kw_save_behavior = Some (save_behavior (obj h2 self)), kw_name = None\<rparr> of
           Raised e h' \<Rightarrow> Raised e h'
         | Returned h3 \<Rightarrow>
             Returned (log_modification
                         (upd_obj h3 self (\<lambda>d. d\<lparr>modification_log := []\<rparr>)) self))"

section \<open>Queries of a tracker\<close>

text \<open>\<open>xs[i]\<close> on a Python list: a negative index counts from the end.\<close>

definition list_getitem :: "'a list \<Rightarrow> int \<Rightarrow> error + 'a" where
  "list_getitem xs i =
     (let n = int (length xs);
          j = (if i < 0 then i + n else i)
      in if j < 0 \<or> n \<le> j then Inl IndexError else Inr (xs ! nat j))"

definition print :: "state \<Rightarrow> line \<Rightarrow> state" where
  "print h l = h\<lparr>stdout := stdout h @ [l]\<rparr>"

text \<open>
  The loop of the decorator over \<open>objectlist\<close>: a row is printed for a tuple; an element
  that is a \<open>DataObject\<close> instance cannot be subscripted.
\<close>

fun print_rows :: "state \<Rightarrow> pyval list \<Rightarrow> (error + pyval) \<times> state" where
  "print_rows h [] = (Inr PNone, h)"
| "print_rows h (Tuple4 index nm objecttype d # rest) =
     print_rows (print h (Row index nm objecttype)) rest"
| "print_rows h (v # rest) = (Inl TypeError, h)"

text \<open>
  The decorator \<open>show_object_list\<close>: \<open>method\<close> is the decorated method applied to its own
  arguments, \<open>show\<close> the keyword argument that the wrapper adds (default \<open>False\<close>).
\<close>

definition show_object_list ::
  "(state \<Rightarrow> error + pyval) \<Rightarrow> state \<Rightarrow> bool \<Rightarrow> (error + pyval) \<times> state" where
  "show_object_list method h show =
     (case method h of
        Inl e \<Rightarrow> (Inl e, h)
      | Inr objectlist \<Rightarrow>
          if show
          then (case objectlist of
                  PList rows \<Rightarrow> print_rows (print h Header) rows
                | _ \<Rightarrow> (Inl TypeError, print h Header))
          else (Inr objectlist, h))"

definition get_dataobjects_raw :: "tref \<Rightarrow> state \<Rightarrow> error + pyval" where
  "get_dataobjects_raw self h = Inr (PList (map tuple_val (dataobject_list (trk h self))))"

definition sort_dataobjects_by_name_raw :: "tref \<Rightarrow> state \<Rightarrow> error + pyval" where
  "sort_dataobjects_by_name_raw self h =
     Inr (PList (map tuple_val
       (filter (\<lambda>(index, nm, objecttype, d). nm \<noteq> '''') (dataobject_list (trk h self))
        @ filter (\<lambda>(index, nm, objecttype, d). nm = '''') (dataobject_list (trk h self)))))"

text \<open>The first loop of \<open>sort_dataobjects_by_type\<close>: the types in order of first appearance.\<close>

definition collect_types :: "entry list \<Rightarrow> pytype list" where
  "collect_types es =
     fold (\<lambda>(index, nm, objecttype, d) types.
             if objecttype \<notin> set types then types @ [objecttype] else types) es []"

definition sort_dataobjects_by_type_raw :: "tref \<Rightarrow> pytype option \<Rightarrow> state \<Rightarrow> error + pyval" where
  "sort_dataobjects_by_type_raw self objecttype h =
     (let es = dataobject_list (trk h self)
      in case objecttype of
           None \<Rightarrow>
             Inr (PList (map tuple_val
               (concat (map (\<lambda>ty. filter (\<lambda>(index, nm, ty', d). ty' = ty) es)
                            (collect_types es)))))
         | Some ty \<Rightarrow>
             Inr (PList (map tuple_val (filter (\<lambda>(index, nm, ty', d). ty' = ty) es))))"

text \<open>\<open>name in tup[1]\<close> on strings is the substring test.\<close>

definition get_object_by_name_raw :: "tref \<Rightarrow> string \<Rightarrow> bool \<Rightarrow> state \<Rightarrow> error + pyval" where
  "get_object_by_name_raw self nm exactmatch h =
     (let es = dataobject_list (trk h self)
      in if exactmatch
         then Inr (PList (map (\<lambda>(index, nm', objecttype, d). Instance d)
                              (filter (\<lambda>(index, nm', objecttype, d). nm = nm') es)))
         else Inr (PList (map (\<lambda>(index, nm', objecttype, d). Instance d)
                              (filter (\<lambda>(index, nm', objecttype, d). sublist nm nm') es))))"

definition get_object_by_index_raw :: "tref \<Rightarrow> int \<Rightarrow> state \<Rightarrow> error + pyval" where
  "get_object_by_index_raw self index h =
     (case list_getitem (dataobject_list (trk h self)) index of
        Inl e \<Rightarrow> Inl e
      | Inr (i, nm, objecttype, d) \<Rightarrow> Inr (Instance d))"

text \<open>The five decorated methods, as a caller sees them.\<close>

definition get_dataobjects :: "state \<Rightarrow> tref \<Rightarrow> bool \<Rightarrow> (error + pyval) \<times> state" where
  "get_dataobjects h self show = show_object_list (get_dataobjects_raw self) h show"

definition sort_dataobjects_by_name :: "state \<Rightarrow> tref \<Rightarrow> bool \<Rightarrow> (error + pyval) \<times> state" where
  "sort_dataobjects_by_name h self show =
     show_object_list (sort_dataobjects_by_name_raw self) h show"

definition sort_dataobjects_by_type ::
  "state \<Rightarrow> tref \<Rightarrow> pytype option \<Rightarrow> bool \<Rightarrow> (error + pyval) \<times> state" where
  "sort_dataobjects_by_type h self objecttype show =
     show_object_list (sort_dataobjects_by_type_raw self objecttype) h show"

definition get_object_by_name ::
  "state \<Rightarrow> tref \<Rightarrow> string \<Rightarrow> bool \<Rightarrow> bool \<Rightarrow> (error + pyval) \<times> state" where
  "get_object_by_name h self nm exactmatch show =
     show_object_list (get_object_by_name_raw self nm exactmatch) h show"

definition get_object_by_index :: "state \<Rightarrow> tref \<Rightarrow> int \<Rightarrow> bool \<Rightarrow> (error + pyval) \<times> state" where
  "get_object_by_index h self index show =
     show_object_list (get_object_by_index_raw self index) h show"

section \<open>The membership invariant\<close>

text \<open>
  Every tuple of every tracker refers to an object that has the tracker's raw datacube
  among its parents.
\<close>

definition membership_invariant :: "state \<Rightarrow> bool" where
  "membership_invariant h =
     list_all (\<lambda>t. list_all (\<lambda>(index, nm, objecttype, d). has_parent h d (rawdatacube t))
                             (dataobject_list t))
              (trackers h)"

section \<open>Example states\<close>

text \<open>A raw datacube that owns tracker \<open>t\<close>, and an object without a tracker.\<close>

definition raw_object :: "tref \<Rightarrow> dataobject" where
  "raw_object t = \<lparr>save_behavior = True, name = '''', parents_and_save_behavior = [],
     modification_log = [], otype = ''RawDataCube'', dataobjecttracker = Some t\<rparr>"

definition plain_object :: "(ref \<times> bool) list \<Rightarrow> dataobject" where
  "plain_object ps = \<lparr>save_behavior = True, name = ''dc'', parents_and_save_behavior = ps,
     modification_log = [], otype = ''DataCube'', dataobjecttracker = None\<rparr>"

text \<open>
  Two raw datacubes \<open>0\<close> and \<open>1\<close> with the empty trackers \<open>0\<close> and \<open>1\<close>, and the object \<open>2\<close>
  that belongs to nothing yet; the log index reads 5.
\<close>

definition two_cubes :: state where
  "two_cubes = \<lparr>objs = [raw_object 0, raw_object 1, plain_object []],
     trackers = [\<lparr>rawdatacube = 0, dataobject_list = []\<rparr>,
                 \<lparr>rawdatacube = 1, dataobject_list = []\<rparr>],
     log_index = 5, stdout = []\<rparr>"

text \<open>The same, after object \<open>2\<close> has been linked to datacube \<open>0\<close> with save behavior \<open>True\<close>.\<close>

definition linked_to_first :: state where
  "linked_to_first = \<lparr>objs = [raw_object 0, raw_object 1, plain_object [(0, True)]],
     trackers = [\<lparr>rawdatacube = 0, dataobject_list = [(0, ''dc'', ''DataCube'', 2)]\<rparr>,
                 \<lparr>rawdatacube = 1, dataobject_list = []\<rparr>],
     log_index = 5, stdout = []\<rparr>"

text \<open>
  The state after \<open>DataObject(parent, name='dc')\<close> has run in \<open>two_cubes\<close> on object \<open>2\<close> with
  datacube \<open>0\<close> as parent.
\<close>

definition constructed :: state where
  "constructed = \<lparr>objs = [raw_object 0, raw_object 1,
       (plain_object [(0, True)])\<lparr>modification_log := [4]\<rparr>],
     trackers = [\<lparr>rawdatacube = 0, dataobject_list = [(0, ''dc'', ''DataCube'', 2)]\<rparr>,
                 \<lparr>rawdatacube = 1, dataobject_list = []\<rparr>],
     log_index = 5, stdout = []\<rparr>"

text \<open>
  \<open>linked_to_first\<close> after tracker \<open>1\<close> has appended object \<open>2\<close>, which has not got
  datacube \<open>1\<close> as a parent.
\<close>

definition half_registered :: state where
  "half_registered = \<lparr>objs = [raw_object 0, raw_object 1, plain_object [(0, True)]],
     trackers = [\<lparr>rawdatacube = 0, dataobject_list = [(0, ''dc'', ''DataCube'', 2)]\<rparr>,
                 \<lparr>rawdatacube = 1, dataobject_list = [(0, ''dc'', ''DataCube'', 2)]\<rparr>],
     log_index = 5, stdout = []\<rparr>"

text \<open>\<open>two_cubes\<close> after datacube \<open>0\<close> has got datacube \<open>1\<close> as a parent.\<close>

definition cube_under_cube :: state where
  "cube_under_cube =
     \<lparr>objs = [(raw_object 0)\<lparr>parents_and_save_behavior := [(1, True)]\<rparr>, raw_object 1,
              plain_object []],
      trackers = [\<lparr>rawdatacube = 0, dataobject_list = []\<rparr>,
                  \<lparr>rawdatacube = 1, dataobject_list = [(0, '''', ''RawDataCube'', 0)]\<rparr>],
      log_index = 5, stdout = []\<rparr>"

text \<open>
  A raw datacube \<open>0\<close> with tracker \<open>0\<close>, the object \<open>1\<close> derived from it, and an object \<open>2\<close>
  that belongs to nothing yet; \<open>derived_touched\<close> is the state after object \<open>2\<close> has tried
  to take object \<open>1\<close> as a parent.
\<close>

definition derived :: state where
  "derived = \<lparr>objs = [raw_object 0, plain_object [(0, True)], plain_object []],
     trackers = [\<lparr>rawdatacube = 0, dataobject_list = [(0, ''dc'', ''DataCube'', 1)]\<rparr>],
     log_index = 5, stdout = []\<rparr>"

definition derived_touched :: state where
  "derived_touched = \<lparr>objs = [raw_object 0, plain_object [(0, True)], plain_object [(1, True)]],
     trackers = [\<lparr>rawdatacube = 0, dataobject_list =
                    [(0, ''dc'', ''DataCube'', 1), (1, ''dc'', ''DataCube'', 2)]\<rparr>],
     log_index = 5, stdout = []\<rparr>"

section \<open>The state after an update\<close>

lemma in_dataobject_list_never: "\<not> in_dataobject_list h t d"
  by (auto simp: in_dataobject_list_def)

lemma objs_upd_trk: "objs (upd_trk h t f) = objs h"
  by (simp add: upd_trk_def)

lemma trackers_upd_obj: "trackers (upd_obj h r f) = trackers h"
  by (simp add: upd_obj_def)

lemma obj_upd_trk: "obj (upd_trk h t f) r = obj h r"
  by (simp add: obj_def upd_trk_def)

lemma trk_upd_obj: "trk (upd_obj h r f) t = trk h t"
  by (simp add: trk_def upd_obj_def)

lemma obj_upd_obj:
  "obj (upd_obj h r f) r' = (if r' = r \<and> r < length (objs h) then f (obj h r) else obj h r')"
  by (cases "r < length (objs h)") (auto simp: obj_def upd_obj_def list_update_beyond)

lemma trk_upd_trk:
  "trk (upd_trk h t f) t' = (if t' = t \<and> t < length (trackers h) then f (trk h t) else trk h t')"
  by (cases "t < length (trackers h)") (auto simp: trk_def upd_trk_def list_update_beyond)

lemma length_trackers_upd_trk: "length (trackers (upd_trk h t f)) = length (trackers h)"
  by (simp add: upd_trk_def)

lemma length_objs_upd_obj: "length (objs (upd_obj h r f)) = length (objs h)"
  by (simp add: upd_obj_def)

lemma has_parent_append_entry: "has_parent (append_entry h t d kw) x y = has_parent h x y"
  by (simp add: has_parent_def get_parent_list_def append_entry_def Let_def obj_upd_trk)

lemma rawdatacube_append_entry:
  "rawdatacube (trk (append_entry h t d kw) t') = rawdatacube (trk h t')"
  by (simp add: append_entry_def Let_def trk_upd_trk)

lemma contains_append_entry:
  "contains_dataobject (append_entry h t d kw) t' x =
     (if t' = t \<and> t < length (trackers h) then contains_dataobject h t x \<or> x = d
      else contains_dataobject h t' x)"
  by (auto simp: contains_dataobject_def append_entry_def Let_def trk_upd_trk)

lemma has_parent_append_parent:
  "has_parent (append_parent h self p sb) x y =
     (if x = self \<and> self < length (objs h) then has_parent h x y \<or> y = p else has_parent h x y)"
  by (auto simp: has_parent_def get_parent_list_def append_parent_def obj_upd_obj)

lemma trk_append_parent: "trk (append_parent h self p sb) t = trk h t"
  by (simp add: append_parent_def trk_upd_obj)

lemma trackers_append_parent: "trackers (append_parent h self p sb) = trackers h"
  by (simp add: append_parent_def trackers_upd_obj)

lemma objs_append_entry: "objs (append_entry h t d kw) = objs h"
  by (simp add: append_entry_def Let_def objs_upd_trk)

lemma length_trackers_append_entry:
  "length (trackers (append_entry h t d kw)) = length (trackers h)"
  by (simp add: append_entry_def Let_def length_trackers_upd_trk)

text \<open>A call of new_dataobject that passes save_behavior never gets back from new_parent.\<close>

lemma new_dataobject_save_behavior:
  "kw_save_behavior kw = Some b \<Longrightarrow>
   new_dataobject h t d kw =
     (if has_parent h d (rawdatacube (trk h t)) then Returned (append_entry h t d kw)
      else Raised TypeError (append_entry h t d kw))"
  by (simp add: new_dataobject.simps new_parent.simps in_dataobject_list_never
        has_parent_append_entry rawdatacube_append_entry)

lemma new_parent_loop_Cons:
  "new_parent_loop h self sb (t # rest) =
     (if contains_dataobject h t self then new_parent_loop h self sb rest
      else if has_parent h self (rawdatacube (trk h t))
      then new_parent_loop (append_entry h t self \<lparr>kw_save_behavior = Some sb, kw_name = None\<rparr>)
             self sb rest
      else Raised TypeError
             (append_entry h t self \<lparr>kw_save_behavior = Some sb, kw_name = None\<rparr>))"
  by (simp add: new_parent_loop.simps new_dataobject_save_behavior)

lemma membership_invariant_iff:
  "membership_invariant h \<longleftrightarrow>
     (\<forall>t < length (trackers h). \<forall>(index, nm, objecttype, d) \<in> set (dataobject_list (trk h t)).
        has_parent h d (rawdatacube (trk h t)))"
  by (simp add: membership_invariant_def list_all_iff all_set_conv_all_nth [of "trackers h"] trk_def)

lemma membership_invariant_append_entry:
  assumes "membership_invariant h" "has_parent h d (rawdatacube (trk h t))"
  shows "membership_invariant (append_entry h t d kw)"
  using assms
  unfolding membership_invariant_iff
  by (auto simp: has_parent_append_entry rawdatacube_append_entry length_trackers_append_entry)
     (auto simp: append_entry_def Let_def trk_upd_trk split: if_splits)

lemma new_parent_loop_invariant:
  "membership_invariant h \<Longrightarrow> new_parent_loop h self sb ts = Returned h' \<Longrightarrow>
   membership_invariant h'"
proof (induction ts arbitrary: h)
  case Nil
  then show ?case by (simp add: new_parent_loop.simps)
next
  case (Cons t rest)
  then show ?case
    by (simp add: new_parent_loop_Cons split: if_splits)
       (blast intro: membership_invariant_append_entry)+
qed

lemma membership_invariant_append_parent:
  "membership_invariant h \<Longrightarrow> membership_invariant (append_parent h self p sb)"
  unfolding membership_invariant_iff
  by (auto simp: has_parent_append_parent trk_append_parent trackers_append_parent)

lemma new_parent_invariant:
  assumes "membership_invariant h" "new_parent h self parent extra kw = Returned h'"
  shows "membership_invariant h'"
proof (cases parent)
  case None
  with assms show ?thesis
    by (simp add: new_parent.simps split: if_splits)
next
  case (Some p)
  with assms show ?thesis
    by (auto simp: new_parent.simps Let_def change_save_behavior_def split: if_splits
          intro: new_parent_loop_invariant membership_invariant_append_parent)
qed

lemma membership_invariantI:
  assumes "\<And>t index nm objecttype d. t < length (trackers h) \<Longrightarrow>
             (index, nm, objecttype, d) \<in> set (dataobject_list (trk h t)) \<Longrightarrow>
             has_parent h d (rawdatacube (trk h t))"
  shows "membership_invariant h"
  unfolding membership_invariant_iff using assms by blast

lemma membership_invariantD:
  assumes "membership_invariant h" "t < length (trackers h)"
    and "(index, nm, objecttype, d) \<in> set (dataobject_list (trk h t))"
  shows "has_parent h d (rawdatacube (trk h t))"
  using assms unfolding membership_invariant_iff by blast

lemma in_dataobject_list_append_entry:
  assumes "(index, nm, objecttype, x) \<in> set (dataobject_list (trk (append_entry h t d kw) t'))"
  shows "(index, nm, objecttype, x) \<in> set (dataobject_list (trk h t')) \<or> (t' = t \<and> x = d)"
  using assms by (auto simp: append_entry_def Let_def trk_upd_trk split: if_splits)

lemma membership_invariant_reciprocal:
  assumes "membership_invariant h" "d < length (objs h)"
  shows "membership_invariant
           (append_parent (append_entry h t d kw) d (rawdatacube (trk h t)) sb)"
proof (rule membership_invariantI)
  let ?h1 = "append_entry h t d kw"
  let ?h2 = "append_parent ?h1 d (rawdatacube (trk h t)) sb"
  fix t' index nm objecttype x
  assume t': "t' < length (trackers ?h2)"
    and "(index, nm, objecttype, x) \<in> set (dataobject_list (trk ?h2 t'))"
  then have "(index, nm, objecttype, x) \<in> set (dataobject_list (trk ?h1 t'))"
    by (simp add: trk_append_parent)
  then consider "(index, nm, objecttype, x) \<in> set (dataobject_list (trk h t'))"
    | "t' = t" "x = d"
    using in_dataobject_list_append_entry by blast
  then have "has_parent ?h2 x (rawdatacube (trk h t'))"
  proof cases
    case 1
    from t' have "t' < length (trackers h)"
      by (simp add: trackers_append_parent length_trackers_append_entry)
    then have "has_parent h x (rawdatacube (trk h t'))"
      using assms(1) 1 membership_invariantD by blast
    then show ?thesis
      by (auto simp: has_parent_append_parent has_parent_append_entry)
  next
    case 2
    with assms(2) show ?thesis
      by (simp add: has_parent_append_parent objs_append_entry)
  qed
  then show "has_parent ?h2 x (rawdatacube (trk ?h2 t'))"
    by (simp add: trk_append_parent rawdatacube_append_entry)
qed

lemma new_dataobject_invariant:
  assumes "membership_invariant h" "d < length (objs h)"
    and "new_dataobject h t d kw = Returned h'"
  shows "membership_invariant h'"
proof (cases "kw_save_behavior kw")
  case (Some b)
  with assms show ?thesis
    by (auto simp: new_dataobject_save_behavior split: if_splits
          intro: membership_invariant_append_entry)
next
  case None
  show ?thesis
  proof (cases "has_parent h d (rawdatacube (trk h t))")
    case True
    with assms None show ?thesis
      by (auto simp: new_dataobject.simps in_dataobject_list_never has_parent_append_entry
            rawdatacube_append_entry intro: membership_invariant_append_entry)
  next
    case False
    with assms(3) None obtain sb where
      "new_parent_loop (append_parent (append_entry h t d kw) d (rawdatacube (trk h t)) sb) d sb
         (get_dataobjecttrackers
            (append_parent (append_entry h t d kw) d (rawdatacube (trk h t)) sb)
            (rawdatacube (trk h t))) = Returned h'"
      by (auto simp: new_dataobject.simps in_dataobject_list_never has_parent_append_entry
            rawdatacube_append_entry new_parent.simps Let_def
            has_parent_def [symmetric] split: if_splits)
    then show ?thesis
      using membership_invariant_reciprocal [OF assms(1,2)] new_parent_loop_invariant by blast
  qed
qed

lemma has_parent_upd_obj_log:
  "has_parent (upd_obj h r (\<lambda>d. d\<lparr>modification_log := f d\<rparr>)) x y = has_parent h x y"
  by (simp add: has_parent_def get_parent_list_def obj_upd_obj)

lemma membership_invariant_log:
  "membership_invariant (upd_obj h r (\<lambda>d. d\<lparr>modification_log := f d\<rparr>)) = membership_invariant h"
  unfolding membership_invariant_iff
  by (simp add: has_parent_upd_obj_log trackers_upd_obj trk_upd_obj)

lemma membership_invariant_log_modification:
  "membership_invariant (log_modification h self) = membership_invariant h"
  by (simp add: log_modification_def Let_def membership_invariant_log)

lemma membership_invariant_blank:
  assumes "membership_invariant h"
    and "\<forall>t < length (trackers h). \<not> contains_dataobject h t self"
  shows "membership_invariant (upd_obj h self f)"
proof (rule membership_invariantI)
  fix t index nm objecttype d
  assume t: "t < length (trackers (upd_obj h self f))"
    and "(index, nm, objecttype, d) \<in> set (dataobject_list (trk (upd_obj h self f) t))"
  then have t': "t < length (trackers h)"
    and d: "(index, nm, objecttype, d) \<in> set (dataobject_list (trk h t))"
    by (simp_all add: trackers_upd_obj trk_upd_obj)
  from assms(2) t' have "\<not> contains_dataobject h t self" by blast
  with d have "d \<noteq> self"
    by (force simp: contains_dataobject_def)
  moreover have "has_parent h d (rawdatacube (trk h t))"
    using assms(1) t' d membership_invariantD by blast
  ultimately show "has_parent (upd_obj h self f) d (rawdatacube (trk (upd_obj h self f) t))"
    by (simp add: has_parent_def get_parent_list_def obj_upd_obj trk_upd_obj)
qed

lemma contains_upd_obj: "contains_dataobject (upd_obj h r f) t x = contains_dataobject h t x"
  by (simp add: contains_dataobject_def trk_upd_obj)

lemma DataObject_init_invariant:
  assumes "membership_invariant h"
    and "\<forall>t < length (trackers h). \<not> contains_dataobject h t self"
    and "DataObject_init h self parent sb nm = Returned h'"
  shows "membership_invariant h'"
proof -
  define h1 where "h1 = upd_obj h self (\<lambda>d. d\<lparr>save_behavior := (case sb of Some b \<Rightarrow> b | None \<Rightarrow> True),
      name := (case nm of Some n \<Rightarrow> n | None \<Rightarrow> '''')\<rparr>)"
  define h2 where "h2 = upd_obj h1 self (\<lambda>d. d\<lparr>parents_and_save_behavior := []\<rparr>)"
  have i1: "membership_invariant h1"
    unfolding h1_def using assms(1,2) by (rule membership_invariant_blank)
  have "\<forall>t < length (trackers h1). \<not> contains_dataobject h1 t self"
    using assms(2) by (simp add: h1_def trackers_upd_obj contains_upd_obj)
  with i1 have i2: "membership_invariant h2"
    unfolding h2_def by (rule membership_invariant_blank)
  from assms(3) obtain h3 where
    np: "new_parent h2 self parent []
           \<lparr>kw_save_behavior = Some (save_behavior (obj h2 self)), kw_name = None\<rparr> = Returned h3"
    and h': "h' = log_modification (upd_obj h3 self (\<lambda>d. d\<lparr>modification_log := []\<rparr>)) self"
    by (auto simp: DataObject_init_def Let_def h1_def h2_def split: result.splits)
  from i2 np have "membership_invariant h3" by (rule new_parent_invariant)
  then show ?thesis
    by (simp add: h' membership_invariant_log_modification membership_invariant_log)
qed

section \<open>The loop over the trackers\<close>

lemma new_parent_loop_objs: "objs (state_of (new_parent_loop h self sb ts)) = objs h"
proof (induction ts arbitrary: h)
  case Nil
  show ?case by (simp add: new_parent_loop.simps)
next
  case (Cons t rest)
  then show ?case by (simp add: new_parent_loop_Cons objs_append_entry)
qed

lemma contains_append_entry_mono:
  "contains_dataobject h t x \<Longrightarrow> contains_dataobject (append_entry h t' d kw) t x"
  by (auto simp: contains_append_entry)

lemma new_parent_loop_contains_mono:
  "contains_dataobject h t x \<Longrightarrow>
   contains_dataobject (state_of (new_parent_loop h self sb ts)) t x"
proof (induction ts arbitrary: h)
  case Nil
  then show ?case by (simp add: new_parent_loop.simps)
next
  case (Cons t' rest)
  then show ?case by (simp add: new_parent_loop_Cons contains_append_entry_mono)
qed

lemma new_parent_loop_contains:
  assumes "new_parent_loop h self sb ts = Returned h'"
    and "t \<in> set ts" "t < length (trackers h)"
  shows "contains_dataobject h' t self"
  using assms
proof (induction ts arbitrary: h)
  case Nil
  then show ?case by simp
next
  case (Cons t' rest)
  show ?case
  proof (cases "t' = t")
    case True
    show ?thesis
    proof (cases "contains_dataobject h t self")
      case c: True
      with Cons.prems True have "new_parent_loop h self sb rest = Returned h'"
        by (simp add: new_parent_loop_Cons)
      with new_parent_loop_contains_mono [OF c, of self sb rest] show ?thesis by simp
    next
      case False
      let ?h1 = "append_entry h t self \<lparr>kw_save_behavior = Some sb, kw_name = None\<rparr>"
      from False Cons.prems True have "new_parent_loop ?h1 self sb rest = Returned h'"
        by (simp add: new_parent_loop_Cons split: if_splits)
      moreover have "contains_dataobject ?h1 t self"
        using Cons.prems(3) by (simp add: contains_append_entry)
      ultimately show ?thesis
        using new_parent_loop_contains_mono [of ?h1 t self self sb rest] by simp
    qed
  next
    case False
    with Cons.prems have "t \<in> set rest" by simp
    with Cons.IH Cons.prems show ?thesis
      by (auto simp: new_parent_loop_Cons length_trackers_append_entry split: if_splits)
  qed
qed

text \<open>What the loop does to one tracker: nothing, or it appends the tuple of the object.\<close>

lemma new_parent_loop_tracker:
  "trk (state_of (new_parent_loop h self sb ts)) t = trk h t
   \<or> (t \<in> set ts \<and> \<not> contains_dataobject h t self
      \<and> trk (state_of (new_parent_loop h self sb ts)) t =
          (trk h t)\<lparr>dataobject_list := dataobject_list (trk h t)
             @ [(length (dataobject_list (trk h t)), name (obj h self), otype (obj h self), self)]\<rparr>)"
proof (induction ts arbitrary: h)
  case Nil
  show ?case by (simp add: new_parent_loop.simps)
next
  case (Cons t' rest)
  show ?case
  proof (cases "contains_dataobject h t' self")
    case True
    with Cons.IH [of h] show ?thesis by (auto simp: new_parent_loop_Cons)
  next
    case False
    let ?h1 = "append_entry h t' self \<lparr>kw_save_behavior = Some sb, kw_name = None\<rparr>"
    show ?thesis
    proof (cases "has_parent h self (rawdatacube (trk h t'))")
      case hp: True
      have r: "state_of (new_parent_loop h self sb (t' # rest)) =
               state_of (new_parent_loop ?h1 self sb rest)"
        using False hp by (simp add: new_parent_loop_Cons)
      show ?thesis
      proof (cases "t' = t \<and> t < length (trackers h)")
        case True
        then have c: "contains_dataobject ?h1 t self"
          by (simp add: contains_append_entry)
        have "trk (state_of (new_parent_loop ?h1 self sb rest)) t = trk ?h1 t"
          using Cons.IH [of ?h1] c by blast
        moreover have "trk ?h1 t = (trk h t)\<lparr>dataobject_list := dataobject_list (trk h t)
             @ [(length (dataobject_list (trk h t)), name (obj h self), otype (obj h self), self)]\<rparr>"
          using True by (simp add: append_entry_def Let_def trk_upd_trk)
        ultimately show ?thesis
          using True False unfolding r by simp
      next
        case nt: False
        then have same: "trk ?h1 t = trk h t"
          by (auto simp: append_entry_def Let_def trk_upd_trk)
        have c: "contains_dataobject ?h1 t self = contains_dataobject h t self"
          using nt by (auto simp: contains_append_entry)
        have o: "obj ?h1 self = obj h self"
          by (simp add: append_entry_def Let_def obj_upd_trk)
        from Cons.IH [of ?h1] show ?thesis
          unfolding r same c o by auto
      qed
    next
      case nhp: False
      have r: "state_of (new_parent_loop h self sb (t' # rest)) = ?h1"
        using False nhp by (simp add: new_parent_loop_Cons)
      show ?thesis
      proof (cases "t' = t \<and> t < length (trackers h)")
        case True
        then have "trk ?h1 t = (trk h t)\<lparr>dataobject_list := dataobject_list (trk h t)
             @ [(length (dataobject_list (trk h t)), name (obj h self), otype (obj h self), self)]\<rparr>"
          by (simp add: append_entry_def Let_def trk_upd_trk)
        then show ?thesis
          using True False unfolding r by simp
      next
        case nt: False
        then have "trk ?h1 t = trk h t"
          by (auto simp: append_entry_def Let_def trk_upd_trk)
        then show ?thesis by (simp add: r)
      qed
    qed
  qed
qed

lemma new_parent_new:
  assumes "p \<notin> set (get_parent_list h self)"
  shows "new_parent h self (Some p) [] kw =
     (let sb = (case kw_save_behavior kw of Some b \<Rightarrow> b | None \<Rightarrow> save_behavior (obj h self));
          h1 = append_parent h self p sb
      in new_parent_loop h1 self sb (get_dataobjecttrackers h1 p))"
  using assms by (simp add: new_parent.simps Let_def)

lemma new_parent_known:
  assumes "p \<in> set (get_parent_list h self)"
  shows "new_parent h self (Some p) [] kw = Raised TypeError h"
  using assms by (simp add: new_parent.simps Let_def change_save_behavior_def)

lemma obj_state_of_new_parent_loop: "obj (state_of (new_parent_loop h self sb ts)) r = obj h r"
  by (simp add: obj_def new_parent_loop_objs)

lemma new_parent_loop_contains_head:
  assumes "t < length (trackers h)"
  shows "contains_dataobject (state_of (new_parent_loop h self sb (t # rest))) t self"
proof (cases "contains_dataobject h t self")
  case True
  then show ?thesis
    using new_parent_loop_contains_mono [of h t self self sb rest]
    by (simp add: new_parent_loop_Cons)
next
  case False
  let ?h1 = "append_entry h t self \<lparr>kw_save_behavior = Some sb, kw_name = None\<rparr>"
  have "contains_dataobject ?h1 t self"
    using assms by (simp add: contains_append_entry)
  then show ?thesis
    using False new_parent_loop_contains_mono [of ?h1 t self self sb rest]
    by (simp add: new_parent_loop_Cons)
qed

lemma get_dataobjecttrackers_head:
  "dataobjecttracker (obj h d) = Some t \<Longrightarrow> \<exists>rest. get_dataobjecttrackers h d = t # rest"
  by (simp add: get_dataobjecttrackers_def)

lemma DataObject_init_post_any:
  fixes save_behavior_arg :: "bool option" and name_arg :: "string option"
  assumes a: "a < length (objs h)"
    and t: "dataobjecttracker (obj h p) = Some t" "t < length (trackers h)"
  defines "h' \<equiv> state_of (DataObject_init h a (Some p) save_behavior_arg name_arg)"
  shows "contains_dataobject h' t a" "has_parent h' a p"
    "get_save_behavior h' a p = Inr (case save_behavior_arg of Some b \<Rightarrow> b | None \<Rightarrow> True)"
proof -
  define b where "b = (case save_behavior_arg of Some b \<Rightarrow> b | None \<Rightarrow> True)"
  define nm where "nm = (case name_arg of Some n \<Rightarrow> n | None \<Rightarrow> '''')"
  define h2 where "h2 = upd_obj (upd_obj h a (\<lambda>d. d\<lparr>save_behavior := b, name := nm\<rparr>)) a
                          (\<lambda>d. d\<lparr>parents_and_save_behavior := []\<rparr>)"
  define h3 where "h3 = append_parent h2 a p b"
  define r where "r = new_parent_loop h3 a b (get_dataobjecttrackers h3 p)"
  have a2: "obj h2 a = (obj h a)\<lparr>save_behavior := b, name := nm, parents_and_save_behavior := []\<rparr>"
    using a by (simp add: h2_def obj_upd_obj length_objs_upd_obj)
  have len2: "length (objs h2) = length (objs h)"
    by (simp add: h2_def length_objs_upd_obj)
  have trk2: "trackers h2 = trackers h"
    by (simp add: h2_def trackers_upd_obj)
  have sb2: "save_behavior (obj h2 a) = b" by (simp add: a2)
  have "p \<notin> set (get_parent_list h2 a)" by (simp add: get_parent_list_def a2)
  then have np: "new_parent h2 a (Some p) [] \<lparr>kw_save_behavior = Some b, kw_name = None\<rparr> = r"
    by (simp add: new_parent_new h3_def r_def Let_def)
  have init: "DataObject_init h a (Some p) save_behavior_arg name_arg =
      (case r of Raised e h4 \<Rightarrow> Raised e h4
       | Returned h4 \<Rightarrow>
           Returned (log_modification (upd_obj h4 a (\<lambda>d. d\<lparr>modification_log := []\<rparr>)) a))"
    unfolding DataObject_init_def Let_def b_def [symmetric] nm_def [symmetric] h2_def [symmetric]
      sb2 np
    by simp
  have a3: "parents_and_save_behavior (obj h3 a) = [(p, b)]"
    using a by (simp add: h3_def append_parent_def obj_upd_obj len2 a2)
  have "dataobjecttracker (obj h3 p) = Some t"
    using t(1) by (auto simp: h3_def append_parent_def h2_def obj_upd_obj length_objs_upd_obj)
  then obtain rest where "get_dataobjecttrackers h3 p = t # rest"
    using get_dataobjecttrackers_head by blast
  moreover have "t < length (trackers h3)"
    using t(2) by (simp add: h3_def trackers_append_parent trk2)
  ultimately have c: "contains_dataobject (state_of r) t a"
    unfolding r_def using new_parent_loop_contains_head by simp
  have o: "obj (state_of r) a = obj h3 a"
    unfolding r_def by (rule obj_state_of_new_parent_loop)
  have h'_contains: "contains_dataobject h' t a"
    using c unfolding h'_def init
    by (cases r) (simp_all add: log_modification_def Let_def contains_upd_obj)
  have p': "parents_and_save_behavior (obj h' a) = [(p, b)]"
    using o a3 unfolding h'_def init
    by (cases r) (simp_all add: log_modification_def Let_def obj_upd_obj)
  show "contains_dataobject h' t a" by (rule h'_contains)
  from p' show "has_parent h' a p"
    by (simp add: has_parent_def get_parent_list_def)
  from p' show "get_save_behavior h' a p = Inr (case save_behavior_arg of Some b \<Rightarrow> b | None \<Rightarrow> True)"
    by (simp add: get_save_behavior_def get_parent_list_def b_def)
qed

section \<open>Termination and re-entry\<close>

lemma all_calls_terminate: "All new_parent_new_parent_loop_new_dataobject_dom"
proof (rule "new_parent_new_parent_loop_new_dataobject.termination")
  show "wf (inv_image (less_than <*lex*> less_than)
   (\<lambda>x. case x of
       Inl (h, self, parent, extra, kw) \<Rightarrow> (if extra = [] then 3 else 0, 0::nat)
     | Inr (Inl (h, self, sb, ts)) \<Rightarrow> (2::nat, length ts)
     | Inr (Inr (h, self, d, kw)) \<Rightarrow> (if kw_save_behavior kw = None then 4 else 1, 0)))"
    by (intro wf_inv_image wf_lex_prod wf_less_than)
qed (auto simp: no_kwargs_def)

lemma new_parent_loop_all_contained:
  "\<forall>t \<in> set ts. contains_dataobject h t self \<Longrightarrow> new_parent_loop h self sb ts = Returned h"
  by (induction ts) (simp_all add: new_parent_loop.simps)

lemma new_dataobject_has_parent:
  "has_parent h d (rawdatacube (trk h t)) \<Longrightarrow>
   new_dataobject h t d kw = Returned (append_entry h t d kw)"
  by (simp add: new_dataobject.simps in_dataobject_list_never has_parent_append_entry
        rawdatacube_append_entry)

lemma new_dataobject_reenters:
  "\<not> has_parent h d (rawdatacube (trk h t)) \<Longrightarrow>
   new_dataobject h t d kw =
     new_parent (append_entry h t d kw) d (Some (rawdatacube (trk h t)))
       (case kw_save_behavior kw of Some b \<Rightarrow> [b] | None \<Rightarrow> []) no_kwargs"
  by (simp add: new_dataobject.simps in_dataobject_list_never has_parent_append_entry
        rawdatacube_append_entry split: option.splits)

section \<open>Which trackers a new parent reaches\<close>

lemma set_map_filter_iff:
  "y \<in> set (List.map_filter f xs) \<longleftrightarrow> (\<exists>x \<in> set xs. f x = Some y)"
  by (induction xs) (auto split: option.splits)

lemma set_get_dataobjecttrackers:
  "t \<in> set (get_dataobjecttrackers h p) \<longleftrightarrow>
     dataobjecttracker (obj h p) = Some t
     \<or> (\<exists>q \<in> set (get_parent_list h p). dataobjecttracker (obj h q) = Some t)"
  by (auto simp: get_dataobjecttrackers_def set_map_filter_iff split: option.splits)

lemma dataobjecttracker_append_parent:
  "dataobjecttracker (obj (append_parent h a p sb) r) = dataobjecttracker (obj h r)"
  by (simp add: append_parent_def obj_upd_obj)

lemma name_append_parent: "name (obj (append_parent h a p sb) r) = name (obj h r)"
  by (simp add: append_parent_def obj_upd_obj)

lemma otype_append_parent: "otype (obj (append_parent h a p sb) r) = otype (obj h r)"
  by (simp add: append_parent_def obj_upd_obj)

lemma get_parent_list_append_parent:
  "get_parent_list (append_parent h a p sb) r =
     (if r = a \<and> a < length (objs h) then get_parent_list h r @ [p] else get_parent_list h r)"
  by (simp add: get_parent_list_def append_parent_def obj_upd_obj)

lemma set_get_dataobjecttrackers_append_parent:
  "set (get_dataobjecttrackers (append_parent h a p sb) p) = set (get_dataobjecttrackers h p)"
  by (auto simp: set_get_dataobjecttrackers dataobjecttracker_append_parent
        get_parent_list_append_parent split: if_splits)

lemma contains_append_parent:
  "contains_dataobject (append_parent h a p sb) t x = contains_dataobject h t x"
  by (simp add: append_parent_def contains_upd_obj)

lemma new_parent_targets:
  assumes "p \<notin> set (get_parent_list h a)"
  shows "trk (state_of (new_parent h a (Some p) [] kw)) t = trk h t
       \<or> (t \<in> set (get_dataobjecttrackers h p) \<and> \<not> contains_dataobject h t a
          \<and> trk (state_of (new_parent h a (Some p) [] kw)) t =
              (trk h t)\<lparr>dataobject_list := dataobject_list (trk h t)
                 @ [(length (dataobject_list (trk h t)), name (obj h a), otype (obj h a), a)]\<rparr>)"
proof -
  define sb where "sb = (case kw_save_behavior kw of Some b \<Rightarrow> b | None \<Rightarrow> save_behavior (obj h a))"
  define h1 where "h1 = append_parent h a p sb"
  have np: "new_parent h a (Some p) [] kw = new_parent_loop h1 a sb (get_dataobjecttrackers h1 p)"
    using assms by (simp add: new_parent_new Let_def sb_def h1_def)
  from new_parent_loop_tracker [of h1 a sb "get_dataobjecttrackers h1 p" t]
  show ?thesis
    unfolding np
    by (simp add: h1_def trk_append_parent contains_append_parent name_append_parent
          otype_append_parent set_get_dataobjecttrackers_append_parent)
qed

lemma new_parent_registered:
  assumes "p \<notin> set (get_parent_list h a)"
    and "new_parent h a (Some p) [] kw = Returned h'"
    and "t \<in> set (get_dataobjecttrackers h p)" "t < length (trackers h)"
  shows "contains_dataobject h' t a"
proof -
  define sb where "sb = (case kw_save_behavior kw of Some b \<Rightarrow> b | None \<Rightarrow> save_behavior (obj h a))"
  define h1 where "h1 = append_parent h a p sb"
  have "new_parent h a (Some p) [] kw = new_parent_loop h1 a sb (get_dataobjecttrackers h1 p)"
    using assms(1) by (simp add: new_parent_new Let_def sb_def h1_def)
  with assms(2) have "new_parent_loop h1 a sb (get_dataobjecttrackers h1 p) = Returned h'"
    by simp
  moreover have "t \<in> set (get_dataobjecttrackers h1 p)"
    using assms(3) by (simp add: h1_def set_get_dataobjecttrackers_append_parent)
  moreover have "t < length (trackers h1)"
    using assms(4) by (simp add: h1_def trackers_append_parent)
  ultimately show ?thesis by (rule new_parent_loop_contains)
qed

lemma get_dataobjecttrackers_raw:
  assumes "dataobjecttracker (obj h p) = Some t" "get_parent_list h p = []"
  shows "get_dataobjecttrackers h p = [t]"
  using assms by (simp add: get_dataobjecttrackers_def)

lemma new_parent_raw_returns:
  assumes a: "a < length (objs h)" and ne: "a \<noteq> p"
    and t: "dataobjecttracker (obj h p) = Some t" "get_parent_list h p = []"
      "rawdatacube (trk h t) = p"
    and new: "p \<notin> set (get_parent_list h a)"
  shows "\<exists>h'. new_parent h a (Some p) [] kw = Returned h'"
proof -
  define sb where "sb = (case kw_save_behavior kw of Some b \<Rightarrow> b | None \<Rightarrow> save_behavior (obj h a))"
  define h1 where "h1 = append_parent h a p sb"
  have "get_dataobjecttrackers h1 p = [t]"
    using t(1,2) ne
    by (intro get_dataobjecttrackers_raw)
       (simp_all add: h1_def dataobjecttracker_append_parent get_parent_list_append_parent)
  then have np: "new_parent h a (Some p) [] kw = new_parent_loop h1 a sb [t]"
    using new by (simp add: new_parent_new Let_def sb_def h1_def)
  have "has_parent h1 a (rawdatacube (trk h1 t))"
    using a t(3) by (simp add: h1_def has_parent_append_parent trk_append_parent)
  then show ?thesis
    unfolding np by (simp add: new_parent_loop_Cons new_parent_loop.simps)
qed

lemma DataObject_init_raw_returns:
  assumes a: "a < length (objs h)" and ne: "a \<noteq> p"
    and t: "dataobjecttracker (obj h p) = Some t" "get_parent_list h p = []"
      "rawdatacube (trk h t) = p"
  shows "\<exists>h'. DataObject_init h a (Some p) save_behavior_arg name_arg = Returned h'"
proof -
  define b where "b = (case save_behavior_arg of Some b \<Rightarrow> b | None \<Rightarrow> True)"
  define nm where "nm = (case name_arg of Some n \<Rightarrow> n | None \<Rightarrow> '''')"
  define h2 where "h2 = upd_obj (upd_obj h a (\<lambda>d. d\<lparr>save_behavior := b, name := nm\<rparr>)) a
                          (\<lambda>d. d\<lparr>parents_and_save_behavior := []\<rparr>)"
  have "obj h2 p = obj h p"
    using ne by (simp add: h2_def obj_upd_obj)
  then have 1: "dataobjecttracker (obj h2 p) = Some t" "get_parent_list h2 p = []"
    using t(1,2) by (simp_all add: get_parent_list_def)
  have 2: "rawdatacube (trk h2 t) = p"
    using t(3) by (simp add: h2_def trk_upd_obj)
  have 3: "a < length (objs h2)"
    using a by (simp add: h2_def length_objs_upd_obj)
  have 4: "p \<notin> set (get_parent_list h2 a)"
    using a by (simp add: h2_def get_parent_list_def obj_upd_obj length_objs_upd_obj)
  from new_parent_raw_returns [OF 3 ne 1 2 4]
  obtain h3 where "new_parent h2 a (Some p) []
      \<lparr>kw_save_behavior = Some (save_behavior (obj h2 a)), kw_name = None\<rparr> = Returned h3"
    by blast
  then show ?thesis
    by (simp add: DataObject_init_def Let_def b_def nm_def h2_def)
qed

section \<open>Logging and queries\<close>

lemma log_modification_appends:
  "self < length (objs h) \<Longrightarrow>
   modification_log (obj (log_modification h self) self) =
     modification_log (obj h self) @ [log_index h - 1]"
  by (simp add: log_modification_def Let_def get_current_log_index_def obj_upd_obj)

lemma log_index_upd_obj: "log_index (upd_obj h r f) = log_index h"
  by (simp add: upd_obj_def)

lemma DataObject_init_no_parent:
  "DataObject_init h self None sb nm =
     Returned (log_modification
       (upd_obj (upd_obj (upd_obj h self
          (\<lambda>d. d\<lparr>save_behavior := (case sb of Some b \<Rightarrow> b | None \<Rightarrow> True),
                  name := (case nm of Some n \<Rightarrow> n | None \<Rightarrow> '''')\<rparr>))
          self (\<lambda>d. d\<lparr>parents_and_save_behavior := []\<rparr>))
          self (\<lambda>d. d\<lparr>modification_log := []\<rparr>)) self)"
  by (simp add: DataObject_init_def Let_def new_parent.simps)

lemma DataObject_init_no_parent_log:
  assumes "self < length (objs h)"
  shows "modification_log (obj (state_of (DataObject_init h self None sb nm)) self) = [log_index h - 1]"
  using assms
  by (simp add: DataObject_init_no_parent log_modification_def Let_def get_current_log_index_def
        obj_upd_obj length_objs_upd_obj log_index_upd_obj)

lemma sort_by_name_result:
  "sort_dataobjects_by_name h t False =
     (Inr (PList (map tuple_val
        (filter (\<lambda>(index, nm, objecttype, d). nm \<noteq> '''') (dataobject_list (trk h t))
         @ filter (\<lambda>(index, nm, objecttype, d). nm = '''') (dataobject_list (trk h t))))), h)"
  by (simp add: sort_dataobjects_by_name_def show_object_list_def sort_dataobjects_by_name_raw_def)

lemma list_getitem_cases:
  "list_getitem xs i =
     (if 0 \<le> i \<and> i < int (length xs) then Inr (xs ! nat i)
      else if - int (length xs) \<le> i \<and> i < 0 then Inr (xs ! nat (int (length xs) + i))
      else Inl IndexError)"
  by (auto simp: list_getitem_def Let_def add.commute)

text \<open>
  A call of \<open>new_parent\<close>, of \<open>new_dataobject\<close> or of the constructor (for a new object that
  no tracker lists yet) that returns preserves the membership invariant.
\<close>

lemma membership_invariant_preserved_on_return:
  assumes "membership_invariant h"
  shows "(new_parent h self parent extra kw = Returned h1 \<longrightarrow> membership_invariant h1)
       \<and> (d < length (objs h) \<and> new_dataobject h t d kw' = Returned h2
            \<longrightarrow> membership_invariant h2)
       \<and> ((\<forall>t < length (trackers h). \<not> contains_dataobject h t a)
            \<and> DataObject_init h a parent' sb nm = Returned h3 \<longrightarrow> membership_invariant h3)"
  using assms new_parent_invariant new_dataobject_invariant DataObject_init_invariant
  by blast

section \<open>Claims\<close>

text \<open>
  C1. Bidirectional membership invariant: the invariant holds in \<open>linked_to_first\<close>. There
  \<open>new_dataobject(2, save_behavior=False)\<close> on the tracker of datacube \<open>1\<close> appends the tuple
  for object \<open>2\<close> and raises \<open>TypeError\<close> before object \<open>2\<close> gets datacube \<open>1\<close> as a parent, so
  the invariant fails in the state it leaves. It still fails after the next mutating
  call, \<open>new_parent\<close> of datacube \<open>0\<close> with parent datacube \<open>1\<close>, has returned.
\<close>

theorem membership_invariant_broken_after_raise:
  "membership_invariant linked_to_first
   \<and> new_dataobject linked_to_first 1 2 \<lparr>kw_save_behavior = Some False, kw_name = None\<rparr>
     = Raised TypeError half_registered
   \<and> \<not> membership_invariant half_registered
   \<and> new_parent half_registered 0 (Some 1) [] no_kwargs
     = Returned (state_of (new_parent half_registered 0 (Some 1) [] no_kwargs))
   \<and> \<not> membership_invariant (state_of (new_parent half_registered 0 (Some 1) [] no_kwargs))"
  by code_simp

text \<open>
  C2. Adding the same parent twice: in \<open>two_cubes\<close>, object \<open>2\<close> takes datacube \<open>0\<close> as a
  parent with save behavior \<open>True\<close>; the second call, with save behavior \<open>False\<close>, raises
  \<open>TypeError\<close> in \<open>change_save_behavior\<close> and changes nothing, so the save behavior that
  object \<open>2\<close> keeps for datacube \<open>0\<close> is \<open>True\<close>, not \<open>False\<close>.
\<close>

theorem second_new_parent_raises:
  "new_parent two_cubes 2 (Some 0) [] \<lparr>kw_save_behavior = Some True, kw_name = None\<rparr>
     = Returned linked_to_first
   \<and> new_parent linked_to_first 2 (Some 0) [] \<lparr>kw_save_behavior = Some False, kw_name = None\<rparr>
     = Raised TypeError linked_to_first
   \<and> get_save_behavior linked_to_first 2 0 = Inr True"
  by code_simp

text \<open>
  C3. Registering into a second tracker with an explicit save behavior: object \<open>2\<close> is
  linked to datacube \<open>0\<close>; \<open>new_dataobject(2, save_behavior=False)\<close> on the tracker of
  datacube \<open>1\<close> appends the tuple and then raises \<open>TypeError\<close>, because it passes the save
  behavior to \<open>new_parent\<close> as a second positional argument. Afterwards the tracker
  contains object \<open>2\<close>, but object \<open>2\<close> has not got datacube \<open>1\<close> as a parent and has no
  save behavior for it.
\<close>

theorem new_dataobject_save_behavior_raises:
  "has_parent linked_to_first 2 0 \<and> \<not> contains_dataobject linked_to_first 1 2
   \<and> new_dataobject linked_to_first 1 2 \<lparr>kw_save_behavior = Some False, kw_name = None\<rparr>
     = Raised TypeError half_registered
   \<and> contains_dataobject half_registered 1 2 \<and> \<not> has_parent half_registered 2 1
   \<and> get_save_behavior half_registered 2 1 = Inl AssertionError"
  by code_simp

text \<open>
  C4. Construction postcondition: after the construction of an object \<open>a\<close> with parent
  \<open>p\<close>, the tracker that \<open>p\<close> owns contains \<open>a\<close>, \<open>a\<close> has the parent \<open>p\<close>, and the save behavior
  of \<open>a\<close> for \<open>p\<close> is the one supplied, or \<open>True\<close> when none was supplied. This holds in the
  state that the constructor leaves, whether it returns or raises. It returns when \<open>p\<close> is
  another object, has no parents of its own, and is the raw datacube of the tracker it
  owns.
\<close>

theorem construction_postcondition:
  assumes "a < length (objs h)"
    and "dataobjecttracker (obj h p) = Some t" and "t < length (trackers h)"
  shows "(let h' = state_of (DataObject_init h a (Some p) save_behavior_arg name_arg)
          in contains_dataobject h' t a \<and> has_parent h' a p
             \<and> get_save_behavior h' a p =
                 Inr (case save_behavior_arg of Some b \<Rightarrow> b | None \<Rightarrow> True))
       \<and> (a \<noteq> p \<and> get_parent_list h p = [] \<and> rawdatacube (trk h t) = p \<longrightarrow>
            (\<exists>h'. DataObject_init h a (Some p) save_behavior_arg name_arg = Returned h'))"
  using DataObject_init_post_any [OF assms, of save_behavior_arg name_arg]
    DataObject_init_raw_returns [OF assms(1) _ assms(2), of save_behavior_arg name_arg]
  by (simp add: Let_def)

theorem construction_postcondition_witness:
  "2 < length (objs two_cubes)
   \<and> dataobjecttracker (obj two_cubes 0) = Some 0 \<and> 0 < length (trackers two_cubes)
   \<and> (2::nat) \<noteq> 0 \<and> get_parent_list two_cubes 0 = [] \<and> rawdatacube (trk two_cubes 0) = 0
   \<and> DataObject_init two_cubes 2 (Some 0) None (Some ''dc'') = Returned constructed
   \<and> contains_dataobject constructed 0 2 \<and> has_parent constructed 2 0
   \<and> get_save_behavior constructed 2 0 = Inr True"
proof -
  have a: "DataObject_init two_cubes 2 (Some 0) None (Some ''dc'') = Returned constructed"
    by code_simp
  have b: "2 < length (objs two_cubes)"
    by code_simp
  have c: "dataobjecttracker (obj two_cubes 0) = Some 0"
    by code_simp
  have d: "0 < length (trackers two_cubes)"
    by code_simp
  have e: "get_parent_list two_cubes 0 = [] \<and> rawdatacube (trk two_cubes 0) = 0"
    by code_simp
  from construction_postcondition [OF b c d, where save_behavior_arg = None
      and name_arg = "Some ''dc''"] a b c d e
  show ?thesis by (simp add: Let_def)
qed

text \<open>
  C5. Termination of the mutual recursion: every chain of calls between \<open>new_parent\<close>, its
  loop over the trackers and \<open>new_dataobject\<close> is finite, from every state and for all
  arguments. Each side adds its membership before it calls the other: the loop of
  \<open>new_parent\<close> runs in the state where the parent has been appended, and \<open>new_dataobject\<close>
  calls \<open>new_parent\<close> in the state where the tuple has been appended. Neither side calls
  the other once the membership check holds: the loop calls no tracker that contains the
  object, and \<open>new_dataobject\<close> does not call \<open>new_parent\<close> for an object that has the
  raw datacube as a parent.
\<close>

theorem mutual_recursion_terminates:
  "All new_parent_new_parent_loop_new_dataobject_dom
   \<and> (p \<notin> set (get_parent_list h self) \<and> self < length (objs h) \<longrightarrow>
        (let sb = (case kw_save_behavior kw of Some b \<Rightarrow> b | None \<Rightarrow> save_behavior (obj h self));
             h1 = append_parent h self p sb
         in new_parent h self (Some p) [] kw
              = new_parent_loop h1 self sb (get_dataobjecttrackers h1 p)
            \<and> has_parent h1 self p))
   \<and> (\<not> has_parent h d (rawdatacube (trk h t)) \<and> t < length (trackers h) \<longrightarrow>
        new_dataobject h t d kw' =
          new_parent (append_entry h t d kw') d (Some (rawdatacube (trk h t)))
            (case kw_save_behavior kw' of Some b \<Rightarrow> [b] | None \<Rightarrow> []) no_kwargs
        \<and> contains_dataobject (append_entry h t d kw') t d)
   \<and> ((\<forall>t \<in> set ts. contains_dataobject h t self) \<longrightarrow>
        new_parent_loop h self sb' ts = Returned h)
   \<and> (has_parent h d (rawdatacube (trk h t)) \<longrightarrow>
        new_dataobject h t d kw' = Returned (append_entry h t d kw'))"
  using all_calls_terminate new_parent_loop_all_contained [of ts h self sb']
    new_dataobject_has_parent [of h d t kw'] new_dataobject_reenters [of h d t kw']
    new_parent_new [of p h self kw]
  by (auto simp: Let_def has_parent_append_parent contains_append_entry)

theorem mutual_recursion_terminates_witness:
  "0 \<notin> set (get_parent_list two_cubes 2) \<and> 2 < length (objs two_cubes)
   \<and> new_parent two_cubes 2 (Some 0) [] no_kwargs
       = new_parent_loop (append_parent two_cubes 2 0 True) 2 True [0]
   \<and> has_parent (append_parent two_cubes 2 0 True) 2 0
   \<and> \<not> has_parent two_cubes 2 0 \<and> 0 < length (trackers two_cubes)
   \<and> new_dataobject two_cubes 0 2 no_kwargs
       = new_parent (append_entry two_cubes 0 2 no_kwargs) 2 (Some 0) [] no_kwargs
   \<and> contains_dataobject (append_entry two_cubes 0 2 no_kwargs) 0 2
   \<and> list_all (\<lambda>t. contains_dataobject linked_to_first t 2) [0]
   \<and> new_parent_loop linked_to_first 2 True [0] = Returned linked_to_first
   \<and> has_parent linked_to_first 2 (rawdatacube (trk linked_to_first 0))
   \<and> new_dataobject linked_to_first 0 2 no_kwargs
       = Returned (append_entry linked_to_first 0 2 no_kwargs)"
proof -
  have a: "0 \<notin> set (get_parent_list two_cubes 2) \<and> 2 < length (objs two_cubes)"
    by code_simp
  have b: "\<not> has_parent two_cubes 2 (rawdatacube (trk two_cubes 0))
      \<and> 0 < length (trackers two_cubes)"
    by code_simp
  have c: "list_all (\<lambda>t. contains_dataobject linked_to_first t 2) [0]"
    by code_simp
  have d: "has_parent linked_to_first 2 (rawdatacube (trk linked_to_first 0))"
    by code_simp
  have e: "save_behavior (obj two_cubes 2) = True
      \<and> get_dataobjecttrackers (append_parent two_cubes 2 0 True) 0 = [0]
      \<and> rawdatacube (trk two_cubes 0) = 0 \<and> kw_save_behavior no_kwargs = None"
    by code_simp
  from mutual_recursion_terminates [where h = two_cubes and p = 0 and self = 2
      and kw = no_kwargs and d = 2 and t = 0 and kw' = no_kwargs and ts = "[]"]
    mutual_recursion_terminates [where h = linked_to_first and self = 2 and ts = "[0]"
      and sb' = True and d = 2 and t = 0 and kw' = no_kwargs and p = 1]
    a b c d e
  show ?thesis by (simp add: Let_def)
qed

text \<open>
  C6, as amended. When an object \<open>a\<close> takes a parent \<open>p\<close> that it has not got yet, the only
  trackers that change are those that \<open>get_dataobjecttrackers\<close> finds from \<open>p\<close>: the tracker
  that \<open>p\<close> owns, if it owns one, and the trackers that the direct parents of \<open>p\<close> own. Such
  a tracker changes only if it does not contain \<open>a\<close>, and then by one appended tuple for
  \<open>a\<close>. When the call returns, each of these trackers contains \<open>a\<close>. The tracker that \<open>a\<close>
  itself owns is not among them unless \<open>p\<close> or a parent of \<open>p\<close> owns it too.
\<close>

theorem new_parent_propagation_targets:
  assumes "p \<notin> set (get_parent_list h a)"
  shows "(t \<in> set (get_dataobjecttrackers h p) \<longleftrightarrow>
            dataobjecttracker (obj h p) = Some t
            \<or> (\<exists>q \<in> set (get_parent_list h p). dataobjecttracker (obj h q) = Some t))
       \<and> (trk (state_of (new_parent h a (Some p) [] kw)) t = trk h t
            \<or> (t \<in> set (get_dataobjecttrackers h p) \<and> \<not> contains_dataobject h t a
               \<and> trk (state_of (new_parent h a (Some p) [] kw)) t =
                   (trk h t)\<lparr>dataobject_list := dataobject_list (trk h t)
                      @ [(length (dataobject_list (trk h t)), name (obj h a), otype (obj h a), a)]\<rparr>))
       \<and> (new_parent h a (Some p) [] kw = Returned h'
            \<and> t \<in> set (get_dataobjecttrackers h p) \<and> t < length (trackers h)
            \<longrightarrow> contains_dataobject h' t a)"
  using set_get_dataobjecttrackers [of t h p] new_parent_targets [OF assms, of kw t]
    new_parent_registered [OF assms, of kw h' t]
  by blast

theorem new_parent_propagation_targets_witness:
  "1 \<notin> set (get_parent_list two_cubes 0)
   \<and> new_parent two_cubes 0 (Some 1) [] no_kwargs = Returned cube_under_cube
   \<and> 1 \<in> set (get_dataobjecttrackers two_cubes 1) \<and> 1 < length (trackers two_cubes)
   \<and> dataobjecttracker (obj two_cubes 1) = Some 1
   \<and> contains_dataobject cube_under_cube 1 0
   \<and> 0 \<notin> set (get_dataobjecttrackers two_cubes 1)
   \<and> trk cube_under_cube 0 = trk two_cubes 0"
proof -
  have a: "1 \<notin> set (get_parent_list two_cubes 0)"
    by code_simp
  have b: "new_parent two_cubes 0 (Some 1) [] no_kwargs = Returned cube_under_cube"
    by code_simp
  have c: "1 \<in> set (get_dataobjecttrackers two_cubes 1) \<and> 1 < length (trackers two_cubes)"
    by code_simp
  have d: "0 \<notin> set (get_dataobjecttrackers two_cubes 1)"
    by code_simp
  have e: "dataobjecttracker (obj two_cubes 1) = Some 1"
    by code_simp
  have s: "state_of (new_parent two_cubes 0 (Some 1) [] no_kwargs) = cube_under_cube"
    using b by simp
  from new_parent_propagation_targets [OF a, of 1 no_kwargs cube_under_cube, unfolded s]
    new_parent_propagation_targets [OF a, of 0 no_kwargs cube_under_cube, unfolded s]
    a b c d e
  show ?thesis by blast
qed

text \<open>
  C6 as stated fails. Datacube \<open>0\<close> owns tracker \<open>0\<close>, which does not contain it; after it
  has taken datacube \<open>1\<close> as a parent, tracker \<open>0\<close> still does not contain it. And when object
  \<open>2\<close>, which owns no tracker, takes as a parent object \<open>1\<close>, which owns no tracker either,
  the tracker of the parent of object \<open>1\<close> gets a tuple for object \<open>2\<close>.
\<close>

theorem new_parent_propagation_counterexample:
  "dataobjecttracker (obj two_cubes 0) = Some 0 \<and> \<not> contains_dataobject two_cubes 0 0
   \<and> new_parent two_cubes 0 (Some 1) [] no_kwargs = Returned cube_under_cube
   \<and> \<not> contains_dataobject cube_under_cube 0 0
   \<and> dataobjecttracker (obj derived 2) = None \<and> dataobjecttracker (obj derived 1) = None
   \<and> \<not> contains_dataobject derived 0 2
   \<and> new_parent derived 2 (Some 1) [] no_kwargs = Raised TypeError derived_touched
   \<and> contains_dataobject derived_touched 0 2"
  by code_simp

text \<open>
  C7. Logging offset law: \<open>log_modification\<close> appends the log index minus one to the
  modification log of the object. An object constructed without a parent while the log
  index reads 5 has the log \<open>[4]\<close>, and \<open>log_modification\<close> while the log index reads 9
  makes it \<open>[4, 8]\<close>.
\<close>

theorem logging_offset_law:
  assumes "self < length (objs h)"
  shows "modification_log (obj (log_modification h self) self) =
           modification_log (obj h self) @ [get_current_log_index h - 1]
       \<and> (get_current_log_index h = 5 \<longrightarrow>
            (\<exists>h1. DataObject_init h self None sb nm = Returned h1
               \<and> modification_log (obj h1 self) = [4]
               \<and> modification_log (obj (log_modification (h1\<lparr>log_index := 9\<rparr>) self) self)
                   = [4, 8]))"
proof -
  let ?h1 = "state_of (DataObject_init h self None sb nm)"
  have r: "DataObject_init h self None sb nm = Returned ?h1"
    by (simp add: DataObject_init_no_parent)
  have len: "self < length (objs (?h1\<lparr>log_index := 9\<rparr>))"
    using assms
    by (simp add: DataObject_init_no_parent log_modification_def Let_def length_objs_upd_obj)
  have o: "obj (?h1\<lparr>log_index := 9\<rparr>) self = obj ?h1 self"
    by (simp add: obj_def)
  show ?thesis
    using log_modification_appends [OF assms] log_modification_appends [OF len]
      DataObject_init_no_parent_log [OF assms, of sb nm] r
    unfolding o get_current_log_index_def by auto
qed

theorem logging_offset_law_witness:
  "2 < length (objs two_cubes) \<and> get_current_log_index two_cubes = 5
   \<and> modification_log (obj (log_modification two_cubes 2) 2) = [4]
   \<and> (\<exists>h1. DataObject_init two_cubes 2 None None None = Returned h1
         \<and> modification_log (obj h1 2) = [4]
         \<and> modification_log (obj (log_modification (h1\<lparr>log_index := 9\<rparr>) 2) 2) = [4, 8])"
proof -
  have a: "2 < length (objs two_cubes)"
    by code_simp
  have b: "get_current_log_index two_cubes = 5 \<and> modification_log (obj two_cubes 2) = []"
    by code_simp
  from logging_offset_law [OF a, of None None] a b show ?thesis by simp
qed

text \<open>
  C8. \<open>sort_dataobjects_by_name\<close> is a stable partition: without \<open>show\<close> it returns the
  tuples with a non-empty name, in the order of the list, followed by the tuples with the
  empty name, in the order of the list. The two groups together are a permutation of the
  list, and each group is a subsequence of it.
\<close>

theorem sort_by_name_stable_partition:
  "\<exists>named unnamed.
     sort_dataobjects_by_name h t False = (Inr (PList (map tuple_val (named @ unnamed))), h)
     \<and> named = filter (\<lambda>(index, nm, objecttype, d). nm \<noteq> '''') (dataobject_list (trk h t))
     \<and> unnamed = filter (\<lambda>(index, nm, objecttype, d). nm = '''') (dataobject_list (trk h t))
     \<and> mset (named @ unnamed) = mset (dataobject_list (trk h t))
     \<and> subseq named (dataobject_list (trk h t))
     \<and> subseq unnamed (dataobject_list (trk h t))"
proof -
  let ?es = "dataobject_list (trk h t)"
  let ?P = "\<lambda>(index :: nat, nm :: string, objecttype :: pytype, d :: ref). nm \<noteq> ''''"
  have "(\<lambda>(index :: nat, nm :: string, objecttype :: pytype, d :: ref). nm = '''')
          = (\<lambda>e. \<not> ?P e)"
    by auto
  then have "mset (filter ?P ?es
        @ filter (\<lambda>(index, nm, objecttype, d). nm = '''') ?es) = mset ?es"
    by simp
  then show ?thesis
    by (simp add: sort_by_name_result)
qed

text \<open>
  C9, as amended. Without \<open>show\<close>, \<open>get_object_by_index(index)\<close> returns the object of the
  tuple at position \<open>index\<close> when \<open>0 \<le> index < n\<close>, the object of the tuple at position
  \<open>n + index\<close> when \<open>-n \<le> index < 0\<close>, and raises \<open>IndexError\<close> for every other integer, where
  \<open>n\<close> is the number of tuples.
\<close>

theorem get_object_by_index_cases:
  "get_object_by_index h t index False =
     (let es = dataobject_list (trk h t); n = int (length es)
      in if 0 \<le> index \<and> index < n
         then (Inr (Instance (snd (snd (snd (es ! nat index))))), h)
         else if - n \<le> index \<and> index < 0
         then (Inr (Instance (snd (snd (snd (es ! nat (n + index)))))), h)
         else (Inl IndexError, h))"
  by (simp add: get_object_by_index_def show_object_list_def get_object_by_index_raw_def
        list_getitem_cases Let_def split: prod.splits)

text \<open>
  C9 as stated fails: the tracker of datacube \<open>0\<close> holds one tuple, \<open>-1\<close> is not a position
  between \<open>0\<close> and the number of tuples, and \<open>get_object_by_index(-1)\<close> returns object \<open>2\<close>.
\<close>

theorem get_object_by_index_counterexample:
  "length (dataobject_list (trk linked_to_first 0)) = 1
   \<and> get_object_by_index linked_to_first 0 (- 1) False = (Inr (Instance 2), linked_to_first)"
  by code_simp

text \<open>
  C10. Queries are pure: without \<open>show\<close>, each of the five decorated queries of a tracker
  returns the state in which it was called. (\<open>contains_dataobject\<close> is a function of the
  state that yields a truth value and no state.)
\<close>

theorem queries_leave_state_unchanged:
  "snd (get_dataobjects h t False) = h
   \<and> snd (sort_dataobjects_by_name h t False) = h
   \<and> snd (sort_dataobjects_by_type h t objecttype False) = h
   \<and> snd (get_object_by_name h t nm exactmatch False) = h
   \<and> snd (get_object_by_index h t index False) = h"
  by (simp add: get_dataobjects_def sort_dataobjects_by_name_def sort_dataobjects_by_type_def
        get_object_by_name_def get_object_by_index_def show_object_list_def split: sum.splits)

end
